theory Spec2Isabelle
  imports Complex_Main
begin

section \<open>Python text\<close>

text \<open>
  A Python \<open>str\<close> is a sequence of Unicode code points. A code point is a natural
  number here, so that \<open>length\<close> counts what Python's \<open>len\<close> counts and the
  non-ASCII white space of \<open>str.strip\<close> and the Korean dictionary keys of the
  source are single elements. \<open>ascii\<close> embeds an ASCII literal.
\<close>

type_synonym pystr = "nat list"

definition ascii :: "string \<Rightarrow> pystr" where
  "ascii s = map of_char s"

text \<open>
  The characters \<open>str.strip()\<close> removes when called without an argument: the code
  points for which CPython's \<open>_PyUnicode_IsWhitespace\<close> holds.
\<close>

definition is_space :: "nat \<Rightarrow> bool" where
  "is_space c \<longleftrightarrow>
     (9 \<le> c \<and> c \<le> 13) \<or> (28 \<le> c \<and> c \<le> 32) \<or> c = 133 \<or> c = 160 \<or> c = 5760 \<or>
     (8192 \<le> c \<and> c \<le> 8202) \<or> c = 8232 \<or> c = 8233 \<or> c = 8239 \<or> c = 8287 \<or>
     c = 12288"

definition lstrip :: "pystr \<Rightarrow> pystr" where
  "lstrip s = dropWhile is_space s"

definition rstrip :: "pystr \<Rightarrow> pystr" where
  "rstrip s = rev (dropWhile is_space (rev s))"

definition strip :: "pystr \<Rightarrow> pystr" where
  "strip s = lstrip (rstrip s)"

definition startswith :: "pystr \<Rightarrow> pystr \<Rightarrow> bool" where
  "startswith s p \<longleftrightarrow> take (length p) s = p"

text \<open>
  \<open>str.lower()\<close>. The source only asks whether the lowered text starts with
  \<open>json\<close>; the code points whose lower-case form begins with one of \<open>j\<close>,
  \<open>s\<close>, \<open>o\<close>, \<open>n\<close> are these letters and their ASCII capitals, and each of
  them lowers to one code point, so folding \<open>A\<close>..\<open>Z\<close> decides the test as
  Python does.
\<close>

definition lower_char :: "nat \<Rightarrow> nat" where
  "lower_char c = (if 65 \<le> c \<and> c \<le> 90 then c + 32 else c)"

definition lower :: "pystr \<Rightarrow> pystr" where
  "lower s = map lower_char s"

text \<open>
  \<open>s.split(sep)\<close> for a non-empty separator: scan from the left, cut at each
  occurrence and go on behind it. \<open>cur\<close> holds the current part, reversed.
  (With an empty separator Python raises; the source always passes the fence.)
\<close>

fun split_from :: "pystr \<Rightarrow> pystr \<Rightarrow> pystr \<Rightarrow> pystr list" where
  "split_from sep cur [] = [rev cur]"
| "split_from sep cur (c # cs) =
     (if sep \<noteq> [] \<and> startswith (c # cs) sep
      then rev cur # split_from sep [] (drop (length sep - 1) cs)
      else split_from sep (c # cur) cs)"

definition split :: "pystr \<Rightarrow> pystr \<Rightarrow> pystr list" where
  "split s sep = split_from sep [] s"

text \<open>\<open>s.find(sub)\<close>: the lowest index where \<open>sub\<close> occurs, or \<open>-1\<close>.\<close>

fun find_py :: "pystr \<Rightarrow> pystr \<Rightarrow> int" where
  "find_py [] sub = (if sub = [] then 0 else -1)"
| "find_py (c # cs) sub =
     (if startswith (c # cs) sub then 0
      else (let r = find_py cs sub in if r = -1 then -1 else r + 1))"

text \<open>\<open>s.rfind(sub)\<close>: the highest index where \<open>sub\<close> occurs, or \<open>-1\<close>.\<close>

fun rfind :: "pystr \<Rightarrow> pystr \<Rightarrow> int" where
  "rfind [] sub = (if sub = [] then 0 else -1)"
| "rfind (c # cs) sub =
     (let r = rfind cs sub in
      if r \<noteq> -1 then r + 1
      else if startswith (c # cs) sub then 0 else -1)"

text \<open>
  \<open>s[a:b]\<close>: a negative index counts from the end, and both ends are clamped to
  the text, so a slice never raises.
\<close>

definition slice_index :: "int \<Rightarrow> nat \<Rightarrow> nat" where
  "slice_index i n = (if i < 0 then nat (max 0 (i + int n)) else min (nat i) n)"

definition slice :: "pystr \<Rightarrow> int \<Rightarrow> int \<Rightarrow> pystr" where
  "slice s a b =
     (let lo = slice_index a (length s); hi = slice_index b (length s)
      in take (hi - lo) (drop lo s))"

section \<open>The response cleaner\<close>

definition fence :: pystr where
  "fence = ascii ''```''"

definition json_tag :: pystr where
  "json_tag = ascii ''json''"

definition truncate_document :: "'a \<Rightarrow> 'a" where
  "truncate_document document_content = document_content"

text \<open>
  \<open>clean_gpt_output\<close>, statement by statement: strip; when the text starts with a
  fence and the split has at least three parts, take the stripped second part;
  then drop a leading \<open>json\<close> (in any case) and strip again.
\<close>

definition unfence :: "pystr \<Rightarrow> pystr" where
  "unfence output =
     (if startswith output fence
      then (let parts = split output fence
            in if length parts \<ge> 3 then strip (parts ! 1) else output)
      else output)"

definition untag :: "pystr \<Rightarrow> pystr" where
  "untag output =
     (if startswith (lower output) json_tag then strip (drop 4 output) else output)"

definition clean_gpt_output :: "pystr \<Rightarrow> pystr" where
  "clean_gpt_output output = untag (unfence (strip output))"

section \<open>JSON values\<close>

text \<open>
  What \<open>json.loads\<close> builds, and what the functions take and return: Python
  objects of the JSON kinds. A finite float is identified with the number it
  denotes; an object keeps its entries in insertion order.
\<close>

datatype pyfloat = Finite real | PosInf | NegInf | NaN

datatype json =
    JNull
  | JBool bool
  | JInt int
  | JFloat pyfloat
  | JStr pystr
  | JArr "json list"
  | JObj "(pystr \<times> json) list"

text \<open>Python's truth value, as \<open>not parsed_response\<close> tests it.\<close>

fun truthy :: "json \<Rightarrow> bool" where
  "truthy JNull = False"
| "truthy (JBool b) = b"
| "truthy (JInt i) = (i \<noteq> 0)"
| "truthy (JFloat f) = (f \<noteq> Finite 0)"
| "truthy (JStr s) = (s \<noteq> [])"
| "truthy (JArr xs) = (xs \<noteq> [])"
| "truthy (JObj kv) = (kv \<noteq> [])"

text \<open>\<open>d[k] = v\<close>: replace the value of an existing key, or append a new entry.\<close>

fun dict_set :: "(pystr \<times> json) list \<Rightarrow> pystr \<Rightarrow> json \<Rightarrow> (pystr \<times> json) list" where
  "dict_set [] k v = [(k, v)]"
| "dict_set (p # ps) k v = (if fst p = k then (k, v) # ps else p # dict_set ps k v)"

text \<open>\<open>{"error": msg, "raw_response": raw}\<close>\<close>

definition error_object :: "pystr \<Rightarrow> pystr \<Rightarrow> json" where
  "error_object msg raw = JObj [(ascii ''error'', JStr msg), (ascii ''raw_response'', JStr raw)]"

text \<open>
  The literals of the source that are not ASCII, as code points. \<open>key_question\<close>
  is the dictionary key of a question (two Hangul syllables); the others are the
  messages of the error objects and of the raised exceptions, in source order.
\<close>

definition key_question :: pystr where
  "key_question = [51656, 47928]"

definition msg_empty_response :: pystr where
  "msg_empty_response =
     [71, 80, 84, 32, 51025, 45813, 51060, 32, 48708, 50612, 32, 51080, 49845, 45768, 45796, 46]"

definition msg_no_json :: pystr where
  "msg_no_json =
     [71, 80, 84, 32, 51025, 45813, 50640, 49436, 32, 74, 83, 79, 78, 32, 45936, 51060, 53552,
      47484, 32, 52286, 51012, 32, 49688, 32, 50630, 49845, 45768, 45796, 46]"

definition msg_empty_array :: pystr where
  "msg_empty_array =
     [71, 80, 84, 32, 51025, 45813, 51060, 32, 48712, 32, 74, 83, 79, 78, 32, 48176, 50676,
      51077, 45768, 45796, 46]"

definition msg_parse_prefix :: pystr where
  "msg_parse_prefix =
     [51025, 45813, 51012, 32, 74, 83, 79, 78, 51004, 47196, 32, 48320, 54872, 54624, 32, 49688,
      32, 50630, 49845, 45768, 45796, 58, 32]"

definition msg_no_api_key :: pystr where
  "msg_no_api_key =
     [79, 80, 69, 78, 65, 73, 95, 65, 80, 73, 95, 75, 69, 89, 44032, 32, 49444, 51221, 46104,
      50612, 32, 51080, 51648, 32, 50506, 49845, 45768, 45796, 46]"

definition msg_docs_not_json :: pystr where
  "msg_docs_not_json =
     [114, 101, 108, 101, 118, 97, 110, 116, 95, 100, 111, 99, 115, 32, 47928, 51088, 50676,
      51012, 32, 74, 83, 79, 78, 51004, 47196, 32, 48320, 54872, 54624, 32, 49688, 32, 50630,
      49845, 45768, 45796, 46]"

definition msg_not_ten :: pystr where
  "msg_not_ten =
     [49373, 49457, 46108, 32, 51656, 47928, 51032, 32, 49688, 44032, 32, 49, 48, 44060, 44032,
      32, 50500, 45785, 45768, 45796, 46]"

definition msg_questions_prefix :: pystr where
  "msg_questions_prefix =
     [51656, 47928, 32, 49373, 49457, 32, 51025, 45813, 51012, 32, 74, 83, 79, 78, 51004, 47196,
      32, 48320, 54872, 54624, 32, 49688, 32, 50630, 49845, 45768, 45796, 58, 32]"

definition msg_eval_prefix :: pystr where
  "msg_eval_prefix =
     [54217, 44032, 32, 44208, 44284, 47484, 32, 74, 83, 79, 78, 51004, 47196, 32, 48320, 54872,
      54624, 32, 49688, 32, 50630, 49845, 45768, 45796, 58, 32]"

section \<open>Parsing a reply\<close>

text \<open>
  \<open>json.loads\<close> is the standard library's: it is a parameter \<open>loads\<close>, which
  returns the value or the text of the \<open>JSONDecodeError\<close> it raises (\<open>Inl\<close>).
  Limits of the interpreter (recursion depth, memory) are not part of the model.

  \<open>json_str\<close> is the slice from the first \<open>[\<close> to the last \<open>]\<close>.
  \<open>parse_gpt_response\<close>: both \<open>raise ValueError\<close> and the decode error land in
  the \<open>except\<close> clause, which formats the exception after the fixed prefix.
\<close>

definition json_str :: "pystr \<Rightarrow> pystr" where
  "json_str cleaned_text =
     (let start = find_py cleaned_text (ascii ''['');
          stop = rfind cleaned_text (ascii '']'') + 1
      in slice cleaned_text start stop)"

definition parse_gpt_response :: "(pystr \<Rightarrow> pystr + json) \<Rightarrow> pystr \<Rightarrow> json" where
  "parse_gpt_response loads response_text =
     (let cleaned_text = clean_gpt_output response_text in
      if cleaned_text = [] then error_object msg_empty_response response_text
      else
        let start = find_py cleaned_text (ascii ''['');
            stop = rfind cleaned_text (ascii '']'') + 1
        in if start = -1 \<or> stop = -1
           then error_object (msg_parse_prefix @ msg_no_json) response_text
           else (case loads (json_str cleaned_text) of
                   Inl e \<Rightarrow> error_object (msg_parse_prefix @ e) response_text
                 | Inr parsed_response \<Rightarrow>
                     if \<not> truthy parsed_response
                     then error_object msg_empty_array response_text
                     else parsed_response))"

section \<open>The operations that call the model\<close>

text \<open>
  Exceptions that leave a function. \<open>External\<close> stands for whatever the
  libraries raise themselves (network, authentication, validation).
\<close>

datatype exn =
    OpenAIError pystr
  | ValueError pystr
  | KeyError pystr
  | TypeError
  | AttributeError
  | External nat

text \<open>The arguments of \<open>ChatOpenAI(...)\<close>; \<open>api_key = None\<close> when none is passed.\<close>

record chat_config =
  model :: pystr
  temperature :: int
  api_key :: "pystr option"

text \<open>The three fixed prompt templates of the source (their text is not reproduced).\<close>

datatype prompt_template = AnswerTemplate | QuestionTemplate | EvaluationTemplate

text \<open>One \<open>chain.run(inputs)\<close>: the model's configuration, the template, the inputs.\<close>

record llm_request =
  config :: chat_config
  template :: prompt_template
  inputs :: "(pystr \<times> pystr) list"

text \<open>
  Everything outside the repository: the environment variable as \<open>os.getenv\<close>
  returns it, the client constructor (\<open>Some e\<close> when it raises, for reasons of
  its own), the model call, the JSON library, Python's
  \<open>str()\<close>, the sentence encoder and the cosine similarity (with \<open>.item()\<close>).
  \<open>'t\<close> is the type of tensors.
\<close>

record 't externals =
  getenv_OPENAI_API_KEY :: "pystr option"
  ChatOpenAI :: "chat_config \<Rightarrow> exn option"
  chain_run :: "llm_request \<Rightarrow> exn + pystr"
  json_loads :: "pystr \<Rightarrow> pystr + json"
  json_dumps :: "json \<Rightarrow> pystr"
  py_str :: "json \<Rightarrow> pystr"
  encode :: "json \<Rightarrow> 't"
  pytorch_cos_sim :: "'t \<Rightarrow> 't \<Rightarrow> pyfloat"

text \<open>
  A call returns its value or the exception it raises, and the list of the
  requests it has sent to the model, so that "before calling the model" can be said.
\<close>

type_synonym 'a outcome = "(exn + 'a) \<times> llm_request list"

definition compute_embedding_score :: "'t externals \<Rightarrow> json \<Rightarrow> pystr \<Rightarrow> pyfloat" where
  "compute_embedding_score ext question document_text =
     (let q_emb = encode ext question;
          doc_emb = encode ext (JStr document_text)
      in pytorch_cos_sim ext q_emb doc_emb)"

text \<open>A comprehension or loop body that may raise: the first exception ends it.\<close>

fun collect :: "('a \<Rightarrow> exn + 'b) \<Rightarrow> 'a list \<Rightarrow> exn + 'b list" where
  "collect f [] = Inr []"
| "collect f (x # xs) =
     (case f x of
        Inl e \<Rightarrow> Inl e
      | Inr y \<Rightarrow> (case collect f xs of Inl e \<Rightarrow> Inl e | Inr ys \<Rightarrow> Inr (y # ys)))"

text \<open>
  \<open>for doc in relevant_docs\<close>: a list gives its items, a dict its keys, a text its
  characters; nothing else can be iterated.
\<close>

fun iterate :: "json \<Rightarrow> exn + json list" where
  "iterate (JArr xs) = Inr xs"
| "iterate (JObj kv) = Inr (map (\<lambda>p. JStr (fst p)) kv)"
| "iterate (JStr s) = Inr (map (\<lambda>c. JStr [c]) s)"
| "iterate _ = Inl TypeError"

text \<open>\<open>{"<question>": doc["<question>"]}\<close>: only a dict can be indexed by a text.\<close>

fun question_of :: "json \<Rightarrow> exn + json" where
  "question_of (JObj kv) =
     (case map_of kv key_question of
        None \<Rightarrow> Inl (KeyError key_question)
      | Some q \<Rightarrow> Inr (JObj [(key_question, q)]))"
| "question_of _ = Inl TypeError"

text \<open>\<open>qa.get("<question>", "")\<close> on the entries of a dict.\<close>

definition question_text :: "(pystr \<times> json) list \<Rightarrow> json" where
  "question_text kv = (case map_of kv key_question of None \<Rightarrow> JStr [] | Some q \<Rightarrow> q)"

text \<open>The body of the scoring loop; \<open>.get\<close> exists on dicts only.\<close>

fun attach_score :: "'t externals \<Rightarrow> pystr \<Rightarrow> json \<Rightarrow> exn + json" where
  "attach_score ext document_content (JObj kv) =
     (let score = compute_embedding_score ext (question_text kv) document_content
      in Inr (JObj (dict_set kv (ascii ''embedding_score'') (JFloat score))))"
| "attach_score ext document_content _ = Inl AttributeError"

definition answer_config :: "pystr \<Rightarrow> chat_config" where
  "answer_config key = \<lparr>model = ascii ''gpt-4o'', temperature = 0, api_key = Some key\<rparr>"

definition answer_request :: "'t externals \<Rightarrow> pystr \<Rightarrow> pystr \<Rightarrow> json list \<Rightarrow> pystr \<Rightarrow> llm_request" where
  "answer_request ext key file_type questions full_content =
     \<lparr>config = answer_config key, template = AnswerTemplate,
      inputs = [(ascii ''file_type'', file_type),
                (ascii ''document_content'', full_content),
                (ascii ''questions'', json_dumps ext (JArr questions))]\<rparr>"

text \<open>
  \<open>relevant_docs\<close> given as a text is parsed; a decode error becomes the
  \<open>ValueError\<close> of the source.
\<close>

definition normalize_docs :: "'t externals \<Rightarrow> json \<Rightarrow> exn + json" where
  "normalize_docs ext relevant_docs =
     (case relevant_docs of
        JStr s \<Rightarrow> (case json_loads ext s of
                     Inl e \<Rightarrow> Inl (ValueError msg_docs_not_json)
                   | Inr v \<Rightarrow> Inr v)
      | other \<Rightarrow> Inr other)"

text \<open>The comprehension that builds \<open>questions\<close>.\<close>

definition extract_questions :: "json \<Rightarrow> exn + json list" where
  "extract_questions relevant_docs =
     (case iterate relevant_docs of
        Inl e \<Rightarrow> Inl e
      | Inr items \<Rightarrow> collect question_of items)"

text \<open>What happens to the parsed reply: a list is scored item by item, anything else is returned as it is.\<close>

definition score_pairs :: "'t externals \<Rightarrow> pystr \<Rightarrow> json \<Rightarrow> exn + json" where
  "score_pairs ext document_content qa_pairs =
     (case qa_pairs of
        JArr items \<Rightarrow>
          (case collect (attach_score ext document_content) items of
             Inl e \<Rightarrow> Inl e
           | Inr scored \<Rightarrow> Inr (JArr scored))
      | other \<Rightarrow> Inr other)"

text \<open>The part of \<open>analyze_with_gpt\<close> behind the key check, with the key in hand.\<close>

definition analyze_with_key ::
    "'t externals \<Rightarrow> pystr \<Rightarrow> pystr \<Rightarrow> json \<Rightarrow> pystr \<Rightarrow> json outcome" where
  "analyze_with_key ext key file_type relevant_docs document_content =
     (case ChatOpenAI ext (answer_config key) of
        Some e \<Rightarrow> (Inl e, [])
      | None \<Rightarrow>
          let full_content = truncate_document document_content
          in case normalize_docs ext relevant_docs of
               Inl e \<Rightarrow> (Inl e, [])
             | Inr docs \<Rightarrow>
                 (case extract_questions docs of
                    Inl e \<Rightarrow> (Inl e, [])
                  | Inr questions \<Rightarrow>
                      let req = answer_request ext key file_type questions full_content
                      in case chain_run ext req of
                           Inl e \<Rightarrow> (Inl e, [req])
                         | Inr result \<Rightarrow>
                             let qa_pairs = parse_gpt_response (json_loads ext) result
                             in (score_pairs ext document_content qa_pairs, [req])))"

definition analyze_with_gpt ::
    "'t externals \<Rightarrow> pystr \<Rightarrow> json \<Rightarrow> pystr \<Rightarrow> json outcome" where
  "analyze_with_gpt ext file_type relevant_docs document_content =
     (case getenv_OPENAI_API_KEY ext of
        None \<Rightarrow> (Inl (OpenAIError msg_no_api_key), [])
      | Some key \<Rightarrow>
          if key = [] then (Inl (OpenAIError msg_no_api_key), [])
          else analyze_with_key ext key file_type relevant_docs document_content)"

definition question_config :: chat_config where
  "question_config = \<lparr>model = ascii ''gpt-4o-mini'', temperature = 0, api_key = None\<rparr>"

definition question_request :: "pystr \<Rightarrow> llm_request" where
  "question_request document =
     \<lparr>config = question_config, template = QuestionTemplate,
      inputs = [(ascii ''document'', document)]\<rparr>"

text \<open>
  \<open>generate_questions\<close> reads no environment variable and passes no key: the
  client is built from the model name and the temperature alone.
\<close>

text \<open>The \<open>try\<close> block of \<open>generate_questions\<close> on the cleaned reply.\<close>

definition check_questions :: "(pystr \<Rightarrow> pystr + json) \<Rightarrow> pystr \<Rightarrow> json" where
  "check_questions loads cleaned_result =
     (case loads cleaned_result of
        Inl e \<Rightarrow> error_object (msg_questions_prefix @ e) cleaned_result
      | Inr questions \<Rightarrow>
          (case questions of
             JArr qs \<Rightarrow>
               if length qs \<noteq> 10
               then error_object (msg_questions_prefix @ msg_not_ten) cleaned_result
               else questions
           | _ \<Rightarrow> error_object (msg_questions_prefix @ msg_not_ten) cleaned_result))"

text \<open>\<open>document_content\<close> is kept when it is a text and passed through \<open>str()\<close> otherwise.\<close>

definition as_text :: "'t externals \<Rightarrow> json \<Rightarrow> pystr" where
  "as_text ext document_content =
     (case document_content of JStr s \<Rightarrow> s | other \<Rightarrow> py_str ext other)"

definition generate_questions :: "'t externals \<Rightarrow> json \<Rightarrow> json outcome" where
  "generate_questions ext document_content =
     (let document = as_text ext document_content
      in case ChatOpenAI ext question_config of
           Some e \<Rightarrow> (Inl e, [])
         | None \<Rightarrow>
             let req = question_request document
             in case chain_run ext req of
                  Inl e \<Rightarrow> (Inl e, [req])
                | Inr result \<Rightarrow>
                    let cleaned_result = clean_gpt_output result
                    in (Inr (check_questions (json_loads ext) cleaned_result), [req]))"

definition evaluation_config :: "pystr \<Rightarrow> chat_config" where
  "evaluation_config key =
     \<lparr>model = ascii ''gpt-4o-mini'', temperature = 0, api_key = Some key\<rparr>"

definition evaluation_request :: "'t externals \<Rightarrow> pystr \<Rightarrow> json \<Rightarrow> llm_request" where
  "evaluation_request ext key qa_pairs =
     \<lparr>config = evaluation_config key, template = EvaluationTemplate,
      inputs = [(ascii ''qa_pairs'', json_dumps ext qa_pairs)]\<rparr>"

text \<open>The \<open>try\<close> block of \<open>evaluate_qa_pairs\<close> on the raw reply.\<close>

definition read_evaluation :: "(pystr \<Rightarrow> pystr + json) \<Rightarrow> pystr \<Rightarrow> json" where
  "read_evaluation loads result =
     (case loads (clean_gpt_output result) of
        Inl e \<Rightarrow> error_object (msg_eval_prefix @ e) result
      | Inr evaluation \<Rightarrow> evaluation)"

definition evaluate_qa_pairs :: "'t externals \<Rightarrow> json \<Rightarrow> json outcome" where
  "evaluate_qa_pairs ext qa_pairs =
     (case getenv_OPENAI_API_KEY ext of
        None \<Rightarrow> (Inl (OpenAIError msg_no_api_key), [])
      | Some key \<Rightarrow>
          if key = [] then (Inl (OpenAIError msg_no_api_key), [])
          else (case ChatOpenAI ext (evaluation_config key) of
                  Some e \<Rightarrow> (Inl e, [])
                | None \<Rightarrow>
                    let req = evaluation_request ext key qa_pairs
                    in case chain_run ext req of
                         Inl e \<Rightarrow> (Inl e, [req])
                       | Inr result \<Rightarrow> (Inr (read_evaluation (json_loads ext) result), [req])))"

section \<open>A sample environment\<close>

text \<open>
  Concrete externals, for running the operations on concrete inputs: a decoder
  that knows a few texts (and rejects every other with the decoder's message), a
  client constructor that accepts every configuration, a model that answers
  \<open>reply\<close> to every request, and an encoder under which equal texts are similar.
\<close>

definition demo_loads :: "pystr \<Rightarrow> pystr + json" where
  "demo_loads s =
     (if s = ascii ''[]'' then Inr (JArr [])
      else if s = ascii ''[1,2]'' then Inr (JArr [JInt 1, JInt 2])
      else if s = ascii ''[{}]'' then Inr (JArr [JObj []])
      else if s = ascii ''[1,2,3,4,5,6,7,8,9,10]''
        then Inr (JArr [JInt 1, JInt 2, JInt 3, JInt 4, JInt 5, JInt 6, JInt 7, JInt 8, JInt 9,
                        JInt 10])
      else Inl (ascii ''Expecting value''))"

definition demo_ext :: "pystr option \<Rightarrow> pystr \<Rightarrow> json externals" where
  "demo_ext key reply =
     \<lparr>getenv_OPENAI_API_KEY = key,
      ChatOpenAI = (\<lambda>cfg. None),
      chain_run = (\<lambda>req. Inr reply),
      json_loads = demo_loads,
      json_dumps = (\<lambda>v. ascii ''[]''),
      py_str = (\<lambda>v. ascii ''None''),
      encode = (\<lambda>v. v),
      pytorch_cos_sim = (\<lambda>a b. if a = b then Finite 1 else Finite 0)\<rparr>"

section \<open>Properties of the response cleaner\<close>

lemma fence_eq: "fence = [96, 96, 96]"
  by (simp add: fence_def ascii_def)

lemma json_tag_eq: "json_tag = [106, 115, 111, 110]"
  by (simp add: json_tag_def ascii_def)

lemma not_space_backtick: "\<not> is_space 96"
  by (simp add: is_space_def)

lemma lstrip_spaces: "\<forall>c\<in>set ws. is_space c \<Longrightarrow> lstrip (ws @ t) = lstrip t"
  by (simp add: lstrip_def dropWhile_append2)

lemma rstrip_spaces: "\<forall>c\<in>set ws. is_space c \<Longrightarrow> rstrip (t @ ws) = rstrip t"
proof -
  assume ws: "\<forall>c\<in>set ws. is_space c"
  then have "\<And>x. x \<in> set (rev ws) \<Longrightarrow> is_space x" by simp
  then have "dropWhile is_space (rev ws @ rev t) = dropWhile is_space (rev t)"
    by (rule dropWhile_append2)
  then show ?thesis by (simp add: rstrip_def)
qed

lemma lstrip_keep: "\<not> is_space c \<Longrightarrow> lstrip (c # t) = c # t"
  by (simp add: lstrip_def)

lemma rstrip_keep: "\<not> is_space c \<Longrightarrow> rstrip (t @ [c]) = t @ [c]"
  by (simp add: rstrip_def)

lemma length_lstrip: "length (lstrip s) \<le> length s"
  by (simp add: lstrip_def length_dropWhile_le)

lemma length_rstrip: "length (rstrip s) \<le> length s"
  using length_dropWhile_le [of is_space "rev s"] by (simp add: rstrip_def)

lemma rstrip_prefix: "\<exists>ws. s = rstrip s @ ws \<and> (\<forall>c\<in>set ws. is_space c)"
proof -
  have "rev s = takeWhile is_space (rev s) @ dropWhile is_space (rev s)" by simp
  then have "s = rev (dropWhile is_space (rev s)) @ rev (takeWhile is_space (rev s))"
    by (metis rev_append rev_rev_ident)
  moreover have "\<forall>c\<in>set (rev (takeWhile is_space (rev s))). is_space c"
    by (auto dest: set_takeWhileD)
  ultimately show ?thesis unfolding rstrip_def by blast
qed

lemma strip_fixed_ends:
  assumes "strip p = p" and "p \<noteq> []"
  shows "\<not> is_space (hd p) \<and> \<not> is_space (last p)"
proof -
  have "length p = length (lstrip (rstrip p))" using assms(1) by (simp add: strip_def)
  also have "\<dots> \<le> length (rstrip p)" by (rule length_lstrip)
  finally have len: "length (rstrip p) = length p" using length_rstrip [of p] by simp
  obtain ws where ws: "p = rstrip p @ ws" using rstrip_prefix by blast
  then have "length p = length (rstrip p) + length ws" by (metis length_append)
  with len have r: "rstrip p = p" using ws by simp
  then have l: "lstrip p = p" using assms(1) by (simp add: strip_def)
  from r have "dropWhile is_space (rev p) = rev p"
    by (metis rstrip_def rev_rev_ident)
  then have "\<not> is_space (hd (rev p))" using assms(2)
    by (metis hd_dropWhile rev_is_Nil_conv)
  moreover from l have "\<not> is_space (hd p)" using assms(2)
    by (metis lstrip_def hd_dropWhile)
  ultimately show ?thesis using assms(2) by (simp add: hd_rev)
qed

lemma strip_between:
  assumes "\<forall>c\<in>set ws1. is_space c" "\<forall>c\<in>set ws2. is_space c"
    and "t \<noteq> []" "\<not> is_space (hd t)" "\<not> is_space (last t)"
  shows "strip (ws1 @ t @ ws2) = t"
proof -
  obtain b l where t: "t = b @ [l]" using assms(3) by (metis rev_exhaust)
  obtain h r where t': "t = h # r" using assms(3) by (cases t) auto
  have "rstrip (ws1 @ t @ ws2) = rstrip ((ws1 @ b) @ [l])"
    using rstrip_spaces [OF assms(2), of "ws1 @ t"] t by simp
  also have "\<dots> = ws1 @ t" using assms(5) t rstrip_keep [of l "ws1 @ b"] by simp
  finally have "strip (ws1 @ t @ ws2) = lstrip (ws1 @ t)" by (simp add: strip_def)
  also have "\<dots> = lstrip t" by (rule lstrip_spaces [OF assms(1)])
  also have "\<dots> = t" using assms(4) t' lstrip_keep by simp
  finally show ?thesis .
qed

lemma strip_all_spaces: "\<forall>c\<in>set ws. is_space c \<Longrightarrow> strip ws = []"
proof -
  assume ws: "\<forall>c\<in>set ws. is_space c"
  then have "dropWhile is_space (rev ws) = []" by simp
  then show ?thesis by (simp only: strip_def lstrip_def rstrip_def rev.simps dropWhile.simps)
qed


lemma startswith_append:
  "length p \<le> length a \<Longrightarrow> startswith (a @ b) p = startswith a p"
  by (simp add: startswith_def)

lemma split_from_at_fence:
  "split_from fence cur (fence @ rest) = rev cur # split_from fence [] rest"
  by (simp add: fence_eq startswith_def)

lemma split_from_nonempty: "split_from sep cur s \<noteq> []"
  by (induction sep cur s rule: split_from.induct) auto

lemma split_from_to_closing:
  assumes "find_py (inner @ fence) fence = int (length inner)"
  shows "split_from fence cur (inner @ fence @ rest) = (rev cur @ inner) # split_from fence [] rest"
  using assms
proof (induction inner arbitrary: cur)
  case Nil
  show ?case using split_from_at_fence [of cur rest] by simp
next
  case (Cons c cs)
  have no: "\<not> startswith ((c # cs) @ fence) fence"
    using Cons.prems by (auto split: if_splits)
  have "length fence \<le> length ((c # cs) @ fence)" by simp
  from startswith_append [OF this, of rest] no
  have no': "\<not> startswith (c # cs @ fence @ rest) fence" by simp
  have rec: "find_py (cs @ fence) fence = int (length cs)"
    using Cons.prems no by (auto simp: Let_def split: if_splits)
  show ?case using no' Cons.IH [OF rec, of "c # cur"] by simp
qed

lemma unfence_block:
  assumes "find_py (inner @ fence) fence = int (length inner)"
  shows "unfence (fence @ inner @ fence) = strip inner"
proof -
  have "split (fence @ inner @ fence) fence = [] # inner # split_from fence [] []"
    using split_from_at_fence [of "[]" "inner @ fence"]
      split_from_to_closing [OF assms, of "[]" "[]"]
    by (simp add: split_def)
  then have "split (fence @ inner @ fence) fence = [[], inner, []]" by simp
  moreover have "startswith (fence @ inner @ fence) fence" by (simp add: startswith_def)
  ultimately show ?thesis by (simp add: unfence_def)
qed

lemma lower_append: "lower (a @ b) = lower a @ lower b"
  by (simp add: lower_def)

lemma json_tag_shape:
  assumes "lower tag = json_tag"
  shows "length tag = 4 \<and> tag \<noteq> [] \<and> \<not> is_space (hd tag) \<and> \<not> is_space (last tag)"
proof -
  have "length (lower tag) = 4" by (simp only: assms json_tag_eq) simp
  then have len: "length tag = 4" by (simp add: lower_def)
  then obtain a b c d where tag: "tag = [a, b, c, d]"
    by (auto simp: numeral_eq_Suc length_Suc_conv)
  have "lower_char a = 106" "lower_char d = 110"
    using assms by (simp_all add: tag lower_def json_tag_eq)
  then have "\<not> is_space a" "\<not> is_space d"
    by (auto simp: lower_char_def is_space_def split: if_splits)
  then show ?thesis using len tag by simp
qed

lemma fenced_strip:
  assumes "\<forall>c\<in>set ws1. is_space c" "\<forall>c\<in>set ws2. is_space c"
  shows "strip (ws1 @ fence @ inner @ fence @ ws2) = fence @ inner @ fence"
proof -
  have "strip (ws1 @ (fence @ inner @ fence) @ ws2) = fence @ inner @ fence"
    by (rule strip_between [OF assms]) (simp_all add: fence_eq not_space_backtick)
  then show ?thesis by simp
qed

lemma untag_tagged:
  assumes ws: "\<forall>c\<in>set ws3. is_space c" "\<forall>c\<in>set ws4. is_space c"
    and tag: "lower tag = json_tag"
    and payload: "strip payload = payload"
  shows "untag (strip (tag @ ws3 @ payload @ ws4)) = payload"
proof -
  note shape = json_tag_shape [OF tag]
  have starts: "startswith (lower (tag @ rest)) json_tag" for rest
    using tag shape arg_cong [OF tag, of length] by (simp add: lower_append startswith_def)
  show ?thesis
  proof (cases "payload = []")
    case True
    have "strip ([] @ tag @ (ws3 @ ws4)) = tag"
      by (rule strip_between) (use ws shape in auto)
    then have "strip (tag @ ws3 @ payload @ ws4) = tag" using True by simp
    moreover have "untag tag = []"
      using starts [of "[]"] shape by (simp add: untag_def strip_def lstrip_def rstrip_def)
    ultimately show ?thesis using True by simp
  next
    case False
    note ends = strip_fixed_ends [OF payload False]
    have "strip ([] @ (tag @ ws3 @ payload) @ ws4) = tag @ ws3 @ payload"
      by (rule strip_between) (use ws shape ends False in auto)
    then have s: "strip (tag @ ws3 @ payload @ ws4) = tag @ ws3 @ payload" by simp
    have "strip (ws3 @ payload @ []) = payload"
      by (rule strip_between) (use ws ends False in auto)
    then have "strip (drop 4 (tag @ ws3 @ payload)) = payload" using shape by simp
    then show ?thesis using s starts [of "ws3 @ payload"] by (simp add: untag_def)
  qed
qed

lemma untag_untagged:
  assumes ws: "\<forall>c\<in>set ws3. is_space c" "\<forall>c\<in>set ws4. is_space c"
    and plain: "\<not> startswith (lower payload) json_tag"
    and payload: "strip payload = payload"
  shows "untag (strip (ws3 @ payload @ ws4)) = payload"
proof -
  have "strip (ws3 @ payload @ ws4) = payload"
  proof (cases "payload = []")
    case True
    have "\<forall>c\<in>set (ws3 @ ws4). is_space c" using ws by auto
    from strip_all_spaces [OF this] True show ?thesis by simp
  next
    case False
    note ends = strip_fixed_ends [OF payload False]
    show ?thesis by (rule strip_between) (use ws ends False in auto)
  qed
  then show ?thesis using plain by (simp add: untag_def)
qed

text \<open>
  C1: a reply that is one fenced block (white space around it, an optional
  \<open>json\<close> tag in any case behind the opening fence, white space around the
  payload, and no further fence before the closing one) is cleaned to its payload;
  the literal of the specification is cleaned to \<open>[1,2]\<close>.
\<close>

theorem clean_gpt_output_fenced_block:
  assumes ws: "\<forall>c\<in>set ws1. is_space c" "\<forall>c\<in>set ws2. is_space c"
      "\<forall>c\<in>set ws3. is_space c" "\<forall>c\<in>set ws4. is_space c"
    and tag: "lower tag = json_tag \<or> (tag = [] \<and> \<not> startswith (lower payload) json_tag)"
    and payload: "strip payload = payload"
    and closing: "find_py (tag @ ws3 @ payload @ ws4 @ fence) fence
                    = int (length (tag @ ws3 @ payload @ ws4))"
  shows "clean_gpt_output (ws1 @ fence @ tag @ ws3 @ payload @ ws4 @ fence @ ws2) = payload
       \<and> clean_gpt_output (ascii ''```json\<newline>[1,2]\<newline>```'') = ascii ''[1,2]''"
proof
  let ?inner = "tag @ ws3 @ payload @ ws4"
  have "strip (ws1 @ fence @ ?inner @ fence @ ws2) = fence @ ?inner @ fence"
    by (rule fenced_strip [OF ws(1,2)])
  moreover have "unfence (fence @ ?inner @ fence) = strip ?inner"
    by (rule unfence_block) (use closing in simp)
  moreover have "untag (strip ?inner) = payload"
    using tag untag_tagged [OF ws(3,4) _ payload, of tag] untag_untagged [OF ws(3,4) _ payload]
    by auto
  ultimately show "clean_gpt_output (ws1 @ fence @ tag @ ws3 @ payload @ ws4 @ fence @ ws2) = payload"
    by (simp add: clean_gpt_output_def)
next
  show "clean_gpt_output (ascii ''```json\<newline>[1,2]\<newline>```'') = ascii ''[1,2]''"
    by (simp add: clean_gpt_output_def untag_def unfence_def strip_def lstrip_def rstrip_def
        is_space_def startswith_def fence_def json_tag_def ascii_def split_def lower_def
        lower_char_def)
qed

theorem clean_gpt_output_fenced_block_witness:
  "clean_gpt_output (ascii '' ```JSON\<newline>{}\<newline>``` '') = ascii ''{}''"
proof -
  have "clean_gpt_output (ascii '' '' @ fence @ ascii ''JSON'' @ ascii ''\<newline>'' @ ascii ''{}''
          @ ascii ''\<newline>'' @ fence @ ascii '' '') = ascii ''{}''"
    using clean_gpt_output_fenced_block [of "ascii '' ''" "ascii '' ''" "ascii ''\<newline>''"
        "ascii ''\<newline>''" "ascii ''JSON''" "ascii ''{}''"]
    by (simp add: ascii_def is_space_def lower_def lower_char_def json_tag_def fence_def
        strip_def lstrip_def rstrip_def startswith_def)
  then show ?thesis by (simp add: ascii_def fence_def)
qed

lemma rstrip_Cons_keep: "\<not> is_space c \<Longrightarrow> rstrip (c # t) = c # rstrip t"
  by (simp add: rstrip_def dropWhile_append3)

lemma startswith_fence_Cons:
  "startswith s fence \<longleftrightarrow> (\<exists>rest. s = 96 # 96 # 96 # rest)"
proof
  assume "startswith s fence"
  then have "take (length fence) s = fence" by (simp add: startswith_def)
  then have "s = fence @ drop (length fence) s" by (metis append_take_drop_id)
  then have "s = 96 # 96 # 96 # drop (length fence) s" by (simp add: fence_eq)
  then show "\<exists>rest. s = 96 # 96 # 96 # rest" by blast
next
  assume "\<exists>rest. s = 96 # 96 # 96 # rest"
  then show "startswith s fence" by (auto simp: startswith_def fence_eq)
qed

lemma strip_keeps_fence:
  assumes "startswith s fence"
  shows "startswith (strip s) fence"
proof -
  obtain rest where s: "s = 96 # 96 # 96 # rest"
    using assms startswith_fence_Cons by blast
  have "rstrip s = 96 # 96 # 96 # rstrip rest"
    by (simp add: s rstrip_Cons_keep not_space_backtick)
  then have "strip s = 96 # 96 # 96 # rstrip rest"
    by (simp add: strip_def lstrip_keep not_space_backtick)
  then show ?thesis using startswith_fence_Cons by blast
qed

lemma untag_fenced:
  assumes "startswith t fence"
  shows "untag t = t"
proof -
  obtain rest where "t = 96 # 96 # 96 # rest"
    using assms startswith_fence_Cons by blast
  then show ?thesis
    by (simp add: untag_def startswith_def lower_def lower_char_def json_tag_eq)
qed

text \<open>
  C10: on a text that starts with a fence, and whose stripped form splits into
  fewer than three parts, the cleaner returns the stripped text, fence included;
  and whenever the cleaner's result is not what stripping and removing the tag
  alone give, the stripped text starts with a fence and splits into at least
  three parts.
\<close>

theorem clean_gpt_output_unclosed_fence:
  "(startswith s fence \<and> length (split (strip s) fence) < 3
      \<longrightarrow> clean_gpt_output s = strip s \<and> startswith (clean_gpt_output s) fence)
   \<and> (clean_gpt_output t \<noteq> untag (strip t)
      \<longrightarrow> startswith (strip t) fence \<and> length (split (strip t) fence) \<ge> 3)"
proof (intro conjI impI)
  assume a: "startswith s fence \<and> length (split (strip s) fence) < 3"
  then have st: "startswith (strip s) fence" using strip_keeps_fence by blast
  have "unfence (strip s) = strip s" using a by (simp add: unfence_def)
  then show "clean_gpt_output s = strip s"
    using untag_fenced [OF st] by (simp add: clean_gpt_output_def)
  then show "startswith (clean_gpt_output s) fence" using st by simp
next
  assume "clean_gpt_output t \<noteq> untag (strip t)"
  then have "unfence (strip t) \<noteq> strip t" by (auto simp: clean_gpt_output_def)
  then show "startswith (strip t) fence" "length (split (strip t) fence) \<ge> 3"
    by (auto simp: unfence_def Let_def split: if_splits)
qed

theorem clean_gpt_output_unclosed_fence_witness:
  "clean_gpt_output (ascii ''```json [1] '') = ascii ''```json [1]''
   \<and> clean_gpt_output (ascii ''```a```'') \<noteq> untag (strip (ascii ''```a```''))
   \<and> length (split (strip (ascii ''```a```'')) fence) = 3"
proof -
  have h: "startswith (ascii ''```json [1] '') fence
      \<and> length (split (strip (ascii ''```json [1] '')) fence) < 3"
    by (simp add: ascii_def fence_def startswith_def split_def strip_def lstrip_def rstrip_def
        is_space_def)
  have s: "strip (ascii ''```json [1] '') = ascii ''```json [1]''"
    by (simp add: ascii_def strip_def lstrip_def rstrip_def is_space_def)
  have n: "clean_gpt_output (ascii ''```a```'') \<noteq> untag (strip (ascii ''```a```''))"
    by (simp add: clean_gpt_output_def untag_def unfence_def strip_def lstrip_def rstrip_def
        is_space_def startswith_def fence_def json_tag_def ascii_def split_def lower_def
        lower_char_def)
  have l: "length (split (strip (ascii ''```a```'')) fence) = 3"
    by (simp add: ascii_def fence_def startswith_def split_def strip_def lstrip_def rstrip_def
        is_space_def)
  from clean_gpt_output_unclosed_fence [of "ascii ''```json [1] ''" "ascii ''```a```''"] h s n l
  show ?thesis by simp
qed

section \<open>Properties of the parser\<close>

lemma find_py_ge: "find_py s sub \<ge> -1"
  by (induction s sub rule: find_py.induct) (auto simp: Let_def)

lemma rfind_ge: "rfind s sub \<ge> -1"
  by (induction s sub rule: rfind.induct) (auto simp: Let_def)

lemma find_py_char:
  "find_py s [x] = (if x \<in> set s then int (length (takeWhile (\<lambda>y. y \<noteq> x) s)) else -1)"
  by (induction s) (auto simp: startswith_def Let_def)

lemma takeWhile_stops:
  "x \<in> set xs \<Longrightarrow> length (takeWhile (\<lambda>y. y \<noteq> x) xs) < length xs"
  by (induction xs) auto

lemma rfind_char:
  "rfind s [x] =
     (if x \<in> set s then int (length s) - 1 - int (length (takeWhile (\<lambda>y. y \<noteq> x) (rev s)))
      else -1)"
proof (induction s)
  case Nil
  show ?case by simp
next
  case (Cons c cs)
  show ?case
  proof (cases "x \<in> set cs")
    case True
    then have "takeWhile (\<lambda>y. y \<noteq> x) (rev cs @ [c]) = takeWhile (\<lambda>y. y \<noteq> x) (rev cs)"
      by (simp add: takeWhile_append1)
    moreover have "length (takeWhile (\<lambda>y. y \<noteq> x) (rev cs)) < length (rev cs)"
      using True takeWhile_stops [of x "rev cs"] by simp
    ultimately show ?thesis using True Cons.IH by (simp add: Let_def)
  next
    case False
    have "takeWhile (\<lambda>y. y \<noteq> x) (rev cs @ [c]) = rev cs @ takeWhile (\<lambda>y. y \<noteq> x) [c]"
      by (rule takeWhile_append2) (use False in auto)
    then show ?thesis using False Cons.IH by (auto simp: Let_def startswith_def)
  qed
qed

lemma error_object_truthy: "truthy (error_object msg raw)"
  by (simp add: error_object_def)



lemma parse_gpt_response_cases:
  "parse_gpt_response loads r =
     (if clean_gpt_output r = [] then error_object msg_empty_response r
      else if find_py (clean_gpt_output r) (ascii ''['') = -1
        then error_object (msg_parse_prefix @ msg_no_json) r
      else (case loads (json_str (clean_gpt_output r)) of
              Inl e \<Rightarrow> error_object (msg_parse_prefix @ e) r
            | Inr v \<Rightarrow> if truthy v then v else error_object msg_empty_array r))"
proof -
  have "rfind (clean_gpt_output r) (ascii '']'') + 1 \<noteq> -1"
    using rfind_ge [of "clean_gpt_output r" "ascii '']''"] by simp
  then show ?thesis
    by (simp add: parse_gpt_response_def Let_def split: sum.splits)
qed



text \<open>
  C9: when the slice decodes to a value that Python counts as false (the empty
  array, and any other such value the decoder may give), the result is not that
  value but the error object of the empty array, with the reply as
  \<open>raw_response\<close>; and when the cleaned text is empty the result is the error
  object of the empty reply whatever the decoder is, so the decoder is not asked.
\<close>

theorem parse_gpt_response_empty:
  "(find_py (clean_gpt_output r) (ascii ''['') \<noteq> -1
      \<and> loads (json_str (clean_gpt_output r)) = Inr v \<and> \<not> truthy v
      \<longrightarrow> parse_gpt_response loads r = error_object msg_empty_array r
          \<and> parse_gpt_response loads r \<noteq> v)
   \<and> (clean_gpt_output r' = []
      \<longrightarrow> parse_gpt_response loads' r' = error_object msg_empty_response r')"
proof (intro conjI impI)
  assume a: "find_py (clean_gpt_output r) (ascii ''['') \<noteq> -1
      \<and> loads (json_str (clean_gpt_output r)) = Inr v \<and> \<not> truthy v"
  then have "clean_gpt_output r \<noteq> []" by (auto simp: ascii_def)
  then show e: "parse_gpt_response loads r = error_object msg_empty_array r"
    using a by (simp add: parse_gpt_response_cases)
  show "parse_gpt_response loads r \<noteq> v"
    using a e error_object_truthy [of msg_empty_array r] by auto
next
  assume "clean_gpt_output r' = []"
  then show "parse_gpt_response loads' r' = error_object msg_empty_response r'"
    by (simp add: parse_gpt_response_cases)
qed

theorem parse_gpt_response_empty_witness:
  "parse_gpt_response demo_loads (ascii ''[]'') = error_object msg_empty_array (ascii ''[]'')
   \<and> demo_loads (json_str (clean_gpt_output (ascii ''[]''))) = Inr (JArr [])
   \<and> parse_gpt_response demo_loads (ascii '' '') = error_object msg_empty_response (ascii '' '')"
proof -
  have c: "clean_gpt_output (ascii ''[]'') = ascii ''[]''"
    by (simp add: clean_gpt_output_def untag_def unfence_def strip_def lstrip_def rstrip_def
        is_space_def startswith_def fence_def json_tag_def ascii_def split_def lower_def
        lower_char_def)
  have j: "json_str (ascii ''[]'') = ascii ''[]''"
    by (simp add: json_str_def slice_def slice_index_def ascii_def startswith_def)
  have f: "find_py (ascii ''[]'') (ascii ''['') \<noteq> -1"
    by (simp add: ascii_def startswith_def)
  have l: "demo_loads (ascii ''[]'') = Inr (JArr [])"
    by (simp add: demo_loads_def)
  have c': "clean_gpt_output (ascii '' '') = []"
    by (simp add: clean_gpt_output_def untag_def unfence_def strip_def lstrip_def rstrip_def
        is_space_def startswith_def fence_def json_tag_def ascii_def split_def lower_def
        lower_char_def)
  show ?thesis
    using parse_gpt_response_empty [where r = "ascii ''[]''" and loads = demo_loads
        and v = "JArr []" and r' = "ascii '' ''" and loads' = demo_loads]
    by (simp add: c j f l c')
qed

section \<open>Properties of the operations that call the model\<close>






lemma read_evaluation_error:
  "loads (clean_gpt_output result) = Inl e
     \<Longrightarrow> read_evaluation loads result = error_object (msg_eval_prefix @ e) result"
  by (simp add: read_evaluation_def)

text \<open>
  C4, at a reply to \<open>generate_questions\<close> that is fenced and holds two items:
  the error object's \<open>raw_response\<close> is the cleaned text \<open>[1,2]\<close>, not the
  reply; on the same reply \<open>parse_gpt_response\<close> and \<open>evaluate_qa_pairs\<close> keep
  the reply itself when they fail.
\<close>

theorem generate_questions_raw_response_cleaned:
  "fst (generate_questions (demo_ext None (ascii ''```json\<newline>[1,2]\<newline>```'')) (JStr (ascii ''doc'')))
     = Inr (error_object (msg_questions_prefix @ msg_not_ten) (ascii ''[1,2]''))
   \<and> ascii ''[1,2]'' \<noteq> ascii ''```json\<newline>[1,2]\<newline>```''
   \<and> fst (evaluate_qa_pairs (demo_ext (Some (ascii ''k'')) (ascii ''```json\<newline>[1,2\<newline>```'')) JNull)
     = Inr (error_object (msg_eval_prefix @ ascii ''Expecting value'')
              (ascii ''```json\<newline>[1,2\<newline>```''))"
proof -
  have c: "clean_gpt_output (ascii ''```json\<newline>[1,2]\<newline>```'') = ascii ''[1,2]''"
    by (simp add: clean_gpt_output_def untag_def unfence_def strip_def lstrip_def rstrip_def
        is_space_def startswith_def fence_def json_tag_def ascii_def split_def lower_def
        lower_char_def)
  have l: "demo_loads (ascii ''[1,2]'') = Inr (JArr [JInt 1, JInt 2])"
    by (simp add: demo_loads_def ascii_def)
  have c': "clean_gpt_output (ascii ''```json\<newline>[1,2\<newline>```'') = ascii ''[1,2''"
    by (simp add: clean_gpt_output_def untag_def unfence_def strip_def lstrip_def rstrip_def
        is_space_def startswith_def fence_def json_tag_def ascii_def split_def lower_def
        lower_char_def)
  have l': "demo_loads (ascii ''[1,2'') = Inl (ascii ''Expecting value'')"
    by (simp add: demo_loads_def ascii_def)
  have "fst (generate_questions (demo_ext None (ascii ''```json\<newline>[1,2]\<newline>```''))
          (JStr (ascii ''doc'')))
      = Inr (error_object (msg_questions_prefix @ msg_not_ten) (ascii ''[1,2]''))"
    by (simp add: generate_questions_def demo_ext_def check_questions_def c l)
  moreover have "ascii ''[1,2]'' \<noteq> ascii ''```json\<newline>[1,2]\<newline>```''"
    by (simp add: ascii_def)
  moreover have "fst (evaluate_qa_pairs (demo_ext (Some (ascii ''k''))
          (ascii ''```json\<newline>[1,2\<newline>```'')) JNull)
      = Inr (error_object (msg_eval_prefix @ ascii ''Expecting value'')
              (ascii ''```json\<newline>[1,2\<newline>```''))"
    by (simp add: evaluate_qa_pairs_def demo_ext_def read_evaluation_def c' l')
      (simp add: ascii_def)
  ultimately show ?thesis by simp
qed




section \<open>Properties of the answer generator\<close>












lemma analyze_with_gpt_reply:
  assumes "getenv_OPENAI_API_KEY ext = Some key" "key \<noteq> []"
    and "ChatOpenAI ext (answer_config key) = None"
    and "normalize_docs ext docs = Inr docs'" and "extract_questions docs' = Inr qs"
    and "chain_run ext (answer_request ext key ft qs doc) = Inr reply"
  shows "analyze_with_gpt ext ft docs doc =
           (score_pairs ext doc (parse_gpt_response (json_loads ext) reply),
            [answer_request ext key ft qs doc])"
  using assms
  by (simp add: analyze_with_gpt_def analyze_with_key_def Let_def truncate_document_def)




text \<open>
  C8: \<open>truncate_document\<close> is the identity, and every request that
  \<open>analyze_with_gpt\<close> sends to the model carries the document it was given,
  unchanged, as \<open>document_content\<close>.
\<close>

theorem truncate_document_identity:
  "truncate_document d = d
   \<and> (\<forall>req\<in>set (snd (analyze_with_gpt ext ft docs doc)).
         map_of (inputs req) (ascii ''document_content'') = Some doc)"
proof
  show "truncate_document d = d" by (simp add: truncate_document_def)
next
  have "map_of (inputs (answer_request ext key ft qs doc)) (ascii ''document_content'') = Some doc"
    for key qs
    by (simp add: answer_request_def ascii_def)
  then show "\<forall>req\<in>set (snd (analyze_with_gpt ext ft docs doc)).
         map_of (inputs req) (ascii ''document_content'') = Some doc"
    by (auto simp: analyze_with_gpt_def analyze_with_key_def Let_def truncate_document_def
        split: option.splits sum.splits if_splits)
qed

theorem truncate_document_identity_witness:
  "truncate_document (ascii ''doc'') = ascii ''doc''
   \<and> map (\<lambda>req. map_of (inputs req) (ascii ''document_content''))
        (snd (analyze_with_gpt (demo_ext (Some (ascii ''k'')) (ascii ''[{}]'')) (ascii ''PDF'')
           (JArr []) (ascii ''doc'')))
     = [Some (ascii ''doc'')]"
proof -
  let ?ext = "demo_ext (Some (ascii ''k'')) (ascii ''[{}]'')"
  have k: "getenv_OPENAI_API_KEY ?ext = Some (ascii ''k'')" "ascii ''k'' \<noteq> []"
    "ChatOpenAI ?ext (answer_config (ascii ''k'')) = None"
    by (simp_all add: demo_ext_def ascii_def)
  have r: "chain_run ?ext (answer_request ?ext (ascii ''k'') (ascii ''PDF'') [] (ascii ''doc''))
      = Inr (ascii ''[{}]'')"
    by (simp add: demo_ext_def)
  have n: "normalize_docs ?ext (JArr []) = Inr (JArr [])" "extract_questions (JArr []) = Inr []"
    by (simp_all add: normalize_docs_def extract_questions_def)
  have "snd (analyze_with_gpt ?ext (ascii ''PDF'') (JArr []) (ascii ''doc''))
      = [answer_request ?ext (ascii ''k'') (ascii ''PDF'') [] (ascii ''doc'')]"
    by (simp add: analyze_with_gpt_reply [OF k n r])
  then show ?thesis
    using truncate_document_identity [where d = "ascii ''doc''" and ext = ?ext
        and ft = "ascii ''PDF''" and docs = "JArr []" and doc = "ascii ''doc''"]
    by simp
qed

end
